theory Spec2Isabelle
  imports Main
begin

section \<open>The Date object of the host language\<close>

text \<open>
  The program stores every instant in a JavaScript \<open>Date\<close>. A \<open>Date\<close> holds a time
  value: an integral number of milliseconds since 1970-01-01T00:00:00Z, or NaN for an
  invalid date. The model keeps exactly that: \<open>Some t\<close> is the time value \<open>t\<close> and
  \<open>None\<close> is NaN. The same option type stands for every number that a Date method
  returns, since each of them is NaN on an invalid date.

  The functions of this section follow the abstract operations of ECMA-262 (section
  "Date Objects") under their own names. The offset of local time from UTC is the
  parameter \<open>tz\<close>, in milliseconds; it is taken as one fixed offset for all instants (a
  zone without daylight-saving transitions).
\<close>

type_synonym Number = "int option"
type_synonym Date = "int option"

definition msPerDay :: int where "msPerDay = 86400000"
definition msPerHour :: int where "msPerHour = 3600000"
definition msPerMinute :: int where "msPerMinute = 60000"
definition msPerSecond :: int where "msPerSecond = 1000"

definition Day :: "int \<Rightarrow> int" where
  "Day t = t div msPerDay"

definition TimeWithinDay :: "int \<Rightarrow> int" where
  "TimeWithinDay t = t mod msPerDay"

definition DaysInYear :: "int \<Rightarrow> int" where
  "DaysInYear y =
     (if y mod 4 \<noteq> 0 then 365
      else if y mod 100 \<noteq> 0 then 366
      else if y mod 400 \<noteq> 0 then 365
      else 366)"

definition DayFromYear :: "int \<Rightarrow> int" where
  "DayFromYear y =
     365 * (y - 1970) + (y - 1969) div 4 - (y - 1901) div 100 + (y - 1601) div 400"

text \<open>
  ECMA-262 defines the year of a time value as the largest \<open>y\<close> whose first day is not
  after it. The executable form estimates the year from the mean length of a Gregorian
  year (146097 days in 400 years) and corrects the estimate by at most one;
  \<open>YearFromDay_bounds\<close> below proves that this is the year of the standard.
\<close>

definition YearFromDay :: "int \<Rightarrow> int" where
  "YearFromDay d =
     (let y = 1970 + (400 * d) div 146097
      in if DayFromYear (y + 1) \<le> d then y + 1
         else if d < DayFromYear y then y - 1
         else y)"

definition YearFromTime :: "int \<Rightarrow> int" where
  "YearFromTime t = YearFromDay (Day t)"

definition InLeapYear :: "int \<Rightarrow> int" where
  "InLeapYear t = (if DaysInYear (YearFromTime t) = 366 then 1 else 0)"

definition DayWithinYear :: "int \<Rightarrow> int" where
  "DayWithinYear t = Day t - DayFromYear (YearFromTime t)"

definition MonthFromTime :: "int \<Rightarrow> int" where
  "MonthFromTime t =
     (let d = DayWithinYear t; l = InLeapYear t
      in if d < 31 then 0
         else if d < 59 + l then 1
         else if d < 90 + l then 2
         else if d < 120 + l then 3
         else if d < 151 + l then 4
         else if d < 181 + l then 5
         else if d < 212 + l then 6
         else if d < 243 + l then 7
         else if d < 273 + l then 8
         else if d < 304 + l then 9
         else if d < 334 + l then 10
         else 11)"

definition DateFromTime :: "int \<Rightarrow> int" where
  "DateFromTime t =
     (let d = DayWithinYear t; l = InLeapYear t; m = MonthFromTime t
      in if m = 0 then d + 1
         else if m = 1 then d - 30
         else if m = 2 then d - 58 - l
         else if m = 3 then d - 89 - l
         else if m = 4 then d - 119 - l
         else if m = 5 then d - 150 - l
         else if m = 6 then d - 180 - l
         else if m = 7 then d - 211 - l
         else if m = 8 then d - 242 - l
         else if m = 9 then d - 272 - l
         else if m = 10 then d - 303 - l
         else d - 333 - l)"


definition HourFromTime :: "int \<Rightarrow> int" where
  "HourFromTime t = (t div msPerHour) mod 24"

definition MinFromTime :: "int \<Rightarrow> int" where
  "MinFromTime t = (t div msPerMinute) mod 60"

definition SecFromTime :: "int \<Rightarrow> int" where
  "SecFromTime t = (t div msPerSecond) mod 60"

definition msFromTime :: "int \<Rightarrow> int" where
  "msFromTime t = t mod msPerSecond"

definition LocalTime :: "int \<Rightarrow> int \<Rightarrow> int" where
  "LocalTime tz t = t + tz"

definition UTC :: "int \<Rightarrow> int \<Rightarrow> int" where
  "UTC tz t = t - tz"

definition MakeTime :: "int \<Rightarrow> int \<Rightarrow> int \<Rightarrow> int \<Rightarrow> int" where
  "MakeTime hour minute sec ms =
     hour * msPerHour + minute * msPerMinute + sec * msPerSecond + ms"

text \<open>
  \<open>MakeDay\<close> is the day number of the first of the month, plus \<open>date - 1\<close>; a month
  outside 0..11 carries into the year.
\<close>

definition firstDayOfMonth :: "int \<Rightarrow> int \<Rightarrow> int" where
  "firstDayOfMonth m l =
     (if m = 0 then 0
      else if m = 1 then 31
      else if m = 2 then 59 + l
      else if m = 3 then 90 + l
      else if m = 4 then 120 + l
      else if m = 5 then 151 + l
      else if m = 6 then 181 + l
      else if m = 7 then 212 + l
      else if m = 8 then 243 + l
      else if m = 9 then 273 + l
      else if m = 10 then 304 + l
      else 334 + l)"

definition MakeDay :: "int \<Rightarrow> int \<Rightarrow> int \<Rightarrow> int" where
  "MakeDay year month date =
     (let ym = year + month div 12; mn = month mod 12
      in DayFromYear ym
         + firstDayOfMonth mn (if DaysInYear ym = 366 then 1 else 0)
         + date - 1)"

definition MakeDate :: "int \<Rightarrow> int \<Rightarrow> int" where
  "MakeDate day time = day * msPerDay + time"

definition TimeClip :: "int \<Rightarrow> Date" where
  "TimeClip t = (if \<bar>t\<bar> > 8640000000000000 then None else Some t)"

subsection \<open>Methods of Date.prototype\<close>

definition getTime :: "Date \<Rightarrow> Number" where
  "getTime d = d"

definition getFullYear :: "int \<Rightarrow> Date \<Rightarrow> Number" where
  "getFullYear tz d = map_option (\<lambda>t. YearFromTime (LocalTime tz t)) d"

definition getMonth :: "int \<Rightarrow> Date \<Rightarrow> Number" where
  "getMonth tz d = map_option (\<lambda>t. MonthFromTime (LocalTime tz t)) d"

definition getDate :: "int \<Rightarrow> Date \<Rightarrow> Number" where
  "getDate tz d = map_option (\<lambda>t. DateFromTime (LocalTime tz t)) d"


definition setDate :: "int \<Rightarrow> Date \<Rightarrow> Number \<Rightarrow> Date" where
  "setDate tz d date =
     (case d of
        None \<Rightarrow> None
      | Some t0 \<Rightarrow>
          (case date of
             None \<Rightarrow> None
           | Some dt \<Rightarrow>
               (let t = LocalTime tz t0;
                    newDate = MakeDate (MakeDay (YearFromTime t) (MonthFromTime t) dt)
                                (TimeWithinDay t)
                in TimeClip (UTC tz newDate))))"

definition setHours :: "int \<Rightarrow> Date \<Rightarrow> int \<Rightarrow> int \<Rightarrow> int \<Rightarrow> int \<Rightarrow> Date" where
  "setHours tz d hour minute sec ms =
     (case d of
        None \<Rightarrow> None
      | Some t0 \<Rightarrow>
          (let t = LocalTime tz t0;
               date = MakeDate (Day t) (MakeTime hour minute sec ms)
           in TimeClip (UTC tz date)))"

text \<open>Arithmetic and strict equality on numbers, where NaN is contagious and unequal to itself.\<close>

definition num_add :: "Number \<Rightarrow> Number \<Rightarrow> Number" where
  "num_add a b = (case a of None \<Rightarrow> None | Some x \<Rightarrow> map_option (\<lambda>y. x + y) b)"

definition num_sub :: "Number \<Rightarrow> Number \<Rightarrow> Number" where
  "num_sub a b = (case a of None \<Rightarrow> None | Some x \<Rightarrow> map_option (\<lambda>y. x - y) b)"

definition strict_eq :: "Number \<Rightarrow> Number \<Rightarrow> bool" where
  "strict_eq a b = (case a of None \<Rightarrow> False | Some x \<Rightarrow> b = Some x)"

section \<open>Spaced-repetition schedule (spacedRepetition.ts)\<close>

text \<open>
  The records follow the interfaces of the source. The field \<open>id\<close> of a module is
  \<open>id'\<close> here, \<open>id\<close> being the identity function of HOL.
\<close>

record LearningModule =
  id' :: string
  title :: string
  "chapter" :: int
  concepts :: "string list"
  reviewQuestions :: "string list"
  tutorialAnchor :: string

record ScheduledReview =
  moduleId :: string
  date :: Date
  reviewNumber :: int
  isInitialLearning :: bool

record LearningSchedule =
  startDate :: Date
  modules :: "LearningModule list"
  reviews :: "ScheduledReview list"

definition REVIEW_INTERVALS :: "int list" where
  "REVIEW_INTERVALS = [1, 3, 7, 14, 30, 60]"

text \<open>
  \<open>addDays\<close> copies the date, then moves the copy's day of the month. The copy
  \<open>new Date(date)\<close> has the time value of \<open>date\<close>.
\<close>

definition addDays :: "int \<Rightarrow> Date \<Rightarrow> int \<Rightarrow> Date" where
  "addDays tz d days =
     (let result = d
      in setDate tz result (num_add (getDate tz result) (Some days)))"

text \<open>
  The hardcoded catalog. \<open>generateSchedule\<close> uses it when the caller passes no module
  list; in the model the caller always passes the list.
\<close>

definition getTutorialModules :: "LearningModule list" where
  "getTutorialModules =
     [\<lparr>id' = ''ch1-scraper'', title = ''Web Scraper'', chapter = 1,
        concepts = [''requests library'', ''BeautifulSoup parsing'', ''JSON file handling'',
                    ''Rate limiting with sleep()''],
        reviewQuestions =
          [''What is the purpose of rate limiting when scraping websites?'',
           ''How does BeautifulSoup find elements by CSS selector?'',
           ''Why do we save scraped data to JSON files?''],
        tutorialAnchor = ''#chapter-1-web-scraper''\<rparr>,
      \<lparr>id' = ''ch2-database'', title = ''Database'', chapter = 2,
        concepts = [''SQLite database'', ''Creating tables with SQL'',
                    ''Junction tables for many-to-many relationships'',
                    ''SQL queries and joins''],
        reviewQuestions =
          [''What is a junction table and when do you need one?'',
           ''How do you query data that spans multiple tables?'',
           ''What are the benefits of using a database over JSON files?''],
        tutorialAnchor = ''#chapter-2-database''\<rparr>,
      \<lparr>id' = ''ch3-api'', title = ''API Server'', chapter = 3,
        concepts = [''HTTP server with Python'', ''JSON API responses'',
                    ''CORS headers for web access''],
        reviewQuestions =
          [''What is CORS and why is it needed for web APIs?'',
           ''How do you return JSON data from a Python HTTP handler?''],
        tutorialAnchor = ''#chapter-3-api''\<rparr>,
      \<lparr>id' = ''ch4-frontend'', title = ''Frontend'', chapter = 4,
        concepts = [''React components'', ''TypeScript types and interfaces'',
                    ''Vite build tool'', ''useState and useEffect hooks'',
                    ''Props and component composition''],
        reviewQuestions =
          [''What is the difference between useState and useEffect?'',
           ''How do TypeScript interfaces help catch bugs?'',
           ''When should you split code into separate components?''],
        tutorialAnchor = ''#chapter-4-frontend''\<rparr>,
      \<lparr>id' = ''ch5-testing'', title = ''Testing'', chapter = 5,
        concepts = [''Unit testing with Vitest'', ''Pure function testing'',
                    ''Test assertions and expectations''],
        reviewQuestions =
          [''What makes a function easy to test?'',
           ''How do you structure tests using describe and it blocks?''],
        tutorialAnchor = ''#chapter-5-testing''\<rparr>,
      \<lparr>id' = ''ch6-deploy'', title = ''Deployment'', chapter = 6,
        concepts = [''Production builds'', ''GitHub Pages hosting'',
                    ''Static site deployment''],
        reviewQuestions = [],
        tutorialAnchor = ''#chapter-6-deploy''\<rparr>]"

subsection \<open>Array.prototype.sort with a comparator\<close>

text \<open>
  The host's sort is stable, and an element \<open>a\<close> goes after \<open>b\<close> exactly when the
  comparator's result on \<open>(a, b)\<close> is positive; a NaN result counts as zero. For a
  consistent comparator that fixes the result, whatever algorithm the host runs; the
  model is the stable insertion sort. (With a comparator that is not consistent, which
  here needs an invalid date, the standard leaves the order to the host.)
\<close>

definition positive :: "Number \<Rightarrow> bool" where
  "positive v = (case v of None \<Rightarrow> False | Some n \<Rightarrow> 0 < n)"

fun insert_by :: "('a \<Rightarrow> 'a \<Rightarrow> Number) \<Rightarrow> 'a \<Rightarrow> 'a list \<Rightarrow> 'a list" where
  "insert_by cmp x [] = [x]"
| "insert_by cmp x (y # ys) =
     (if positive (cmp x y) then y # insert_by cmp x ys else x # y # ys)"

definition array_sort :: "('a \<Rightarrow> 'a \<Rightarrow> Number) \<Rightarrow> 'a list \<Rightarrow> 'a list" where
  "array_sort cmp xs = foldr (insert_by cmp) xs []"

subsection \<open>generateSchedule\<close>

definition compareByDate :: "ScheduledReview \<Rightarrow> ScheduledReview \<Rightarrow> Number" where
  "compareByDate a b = num_sub (getTime (date a)) (getTime (date b))"

text \<open>
  One pass of the outer \<open>forEach\<close>: the reviews pushed for the module at \<open>index\<close>, in
  the order of the pushes.
\<close>

definition moduleReviews :: "int \<Rightarrow> Date \<Rightarrow> nat \<Rightarrow> LearningModule \<Rightarrow> ScheduledReview list" where
  "moduleReviews tz startDate' index module =
     (let learningDay = int index;
          learningDate = addDays tz startDate' learningDay
      in \<lparr>moduleId = id' module, date = learningDate, reviewNumber = 0,
          isInitialLearning = True\<rparr>
         # map (\<lambda>(reviewIndex, interval).
                  \<lparr>moduleId = id' module, date = addDays tz learningDate interval,
                   reviewNumber = int reviewIndex + 1, isInitialLearning = False\<rparr>)
             (enumerate 0 REVIEW_INTERVALS))"

text \<open>The array \<open>reviews\<close> as it stands before the sort.\<close>

definition pushedReviews :: "int \<Rightarrow> Date \<Rightarrow> LearningModule list \<Rightarrow> ScheduledReview list" where
  "pushedReviews tz startDate' modules' =
     concat (map (\<lambda>(index, module). moduleReviews tz startDate' index module)
               (enumerate 0 modules'))"

definition generateSchedule :: "int \<Rightarrow> Date \<Rightarrow> LearningModule list \<Rightarrow> LearningSchedule" where
  "generateSchedule tz startDate' modules' =
     (let reviews' = pushedReviews tz startDate' modules';
          reviews' = array_sort compareByDate reviews'
      in \<lparr>startDate = startDate', modules = modules', reviews = reviews'\<rparr>)"

subsection \<open>Queries on a schedule\<close>

definition isSameDay :: "int \<Rightarrow> Date \<Rightarrow> Date \<Rightarrow> bool" where
  "isSameDay tz date1 date2 =
     (strict_eq (getFullYear tz date1) (getFullYear tz date2) \<and>
      strict_eq (getMonth tz date1) (getMonth tz date2) \<and>
      strict_eq (getDate tz date1) (getDate tz date2))"

definition getReviewsForDate :: "int \<Rightarrow> LearningSchedule \<Rightarrow> Date \<Rightarrow> ScheduledReview list" where
  "getReviewsForDate tz schedule d =
     filter (\<lambda>review. isSameDay tz (date review) d) (reviews schedule)"

definition getModuleById :: "LearningSchedule \<Rightarrow> string \<Rightarrow> LearningModule option" where
  "getModuleById schedule mid = find (\<lambda>m. id' m = mid) (modules schedule)"

text \<open>
  \<open>Math.min\<close> and \<open>Math.max\<close> over the spread array: NaN as soon as one argument is
  NaN. The program calls them on a non-empty array only; on no argument at all they
  return an infinity, from which \<open>new Date\<close> makes an invalid date, which is the
  \<open>None\<close> of the first equation.
\<close>

fun Math_min :: "Number list \<Rightarrow> Number" where
  "Math_min [] = None"
| "Math_min [x] = x"
| "Math_min (x # y # ys) =
     (case x of None \<Rightarrow> None
      | Some a \<Rightarrow> (case Math_min (y # ys) of None \<Rightarrow> None | Some b \<Rightarrow> Some (min a b)))"

fun Math_max :: "Number list \<Rightarrow> Number" where
  "Math_max [] = None"
| "Math_max [x] = x"
| "Math_max (x # y # ys) =
     (case x of None \<Rightarrow> None
      | Some a \<Rightarrow> (case Math_max (y # ys) of None \<Rightarrow> None | Some b \<Rightarrow> Some (max a b)))"

definition newDate :: "Number \<Rightarrow> Date" where
  "newDate v = (case v of None \<Rightarrow> None | Some t \<Rightarrow> TimeClip t)"

record DateRange =
  start :: Date
  "end" :: Date

definition getScheduleDateRange :: "LearningSchedule \<Rightarrow> DateRange" where
  "getScheduleDateRange schedule =
     (if length (reviews schedule) = 0
      then \<lparr>start = startDate schedule, end = startDate schedule\<rparr>
      else (let dates = map (\<lambda>r. getTime (date r)) (reviews schedule)
            in \<lparr>start = newDate (Math_min dates), end = newDate (Math_max dates)\<rparr>))"


section \<open>Strings of the host language\<close>

text \<open>
  A string of the model is the UTF-8 encoding of the program's string, one \<open>char\<close> per
  byte: this is the text that the export writes to the calendar file. Every character
  that the program searches for or inserts is ASCII, and no byte of a longer UTF-8
  sequence is ASCII, so replacing and joining act on the bytes as they act on the
  characters. The only non-ASCII character of the program is the bullet U+2022.
\<close>

definition backslash :: char where "backslash = CHR 0x5C"
definition LF :: char where "LF = CHR 0x0A"
definition CR :: char where "CR = CHR 0x0D"
definition CRLF :: string where "CRLF = [CR, LF]"
definition bullet :: string where "bullet = [CHR 0xE2, CHR 0x80, CHR 0xA2]"

text \<open>Array.prototype.join.\<close>

fun join :: "string \<Rightarrow> string list \<Rightarrow> string" where
  "join sep [] = []"
| "join sep [x] = x"
| "join sep (x # y # ys) = x @ sep @ join sep (y # ys)"

text \<open>
  Number to string, for the integers (of magnitude below \<open>10^21\<close>, where the host
  switches to exponent notation), and \<open>NaN\<close>.
\<close>

definition digit :: "nat \<Rightarrow> char" where
  "digit n = char_of (48 + n)"

fun digits :: "nat \<Rightarrow> string" where
  "digits n = (if n < 10 then [digit n] else digits (n div 10) @ [digit (n mod 10)])"

definition intToString :: "int \<Rightarrow> string" where
  "intToString i = (if i < 0 then CHR ''-'' # digits (nat (- i)) else digits (nat i))"

definition numberToString :: "Number \<Rightarrow> string" where
  "numberToString v = (case v of None \<Rightarrow> ''NaN'' | Some i \<Rightarrow> intToString i)"

definition padStart :: "nat \<Rightarrow> string \<Rightarrow> string" where
  "padStart n s = replicate (n - length s) CHR ''0'' @ s"

text \<open>\<open>String.prototype.replace\<close> with a global pattern that matches one given character.\<close>

definition replace_char :: "char \<Rightarrow> string \<Rightarrow> string \<Rightarrow> string" where
  "replace_char c r s = concat (map (\<lambda>x. if x = c then r else [x]) s)"

subsection \<open>Date.prototype.toISOString\<close>

datatype js_error = RangeError

text \<open>
  \<open>YYYY-MM-DDTHH:mm:ss.sssZ\<close> in UTC; a year outside 0..9999 is written with a sign and
  six digits; an invalid date throws.
\<close>

definition isoYear :: "int \<Rightarrow> string" where
  "isoYear y =
     (if 0 \<le> y \<and> y \<le> 9999 then padStart 4 (digits (nat y))
      else (if y < 0 then ''-'' else ''+'') @ padStart 6 (digits (nat \<bar>y\<bar>)))"

definition two :: "int \<Rightarrow> string" where
  "two n = padStart 2 (digits (nat n))"

definition toISOString :: "Date \<Rightarrow> js_error + string" where
  "toISOString d =
     (case d of
        None \<Rightarrow> Inl RangeError
      | Some t \<Rightarrow>
          Inr (isoYear (YearFromTime t) @ ''-'' @ two (MonthFromTime t + 1) @ ''-''
               @ two (DateFromTime t) @ ''T'' @ two (HourFromTime t) @ '':''
               @ two (MinFromTime t) @ '':'' @ two (SecFromTime t) @ ''.''
               @ padStart 3 (digits (nat (msFromTime t))) @ ''Z''))"

section \<open>Calendar export (calendarExport.ts)\<close>

text \<open>
  \<open>compact\<close> is the tail of both date formatters:
  \<open>.replace(/[-:]/g, '').split('.')[0] + 'Z'\<close>.
\<close>

definition compact :: "string \<Rightarrow> string" where
  "compact isoString =
     takeWhile (\<lambda>c. c \<noteq> CHR ''.'') (filter (\<lambda>c. c \<noteq> CHR ''-'' \<and> c \<noteq> CHR '':'') isoString) @ ''Z''"

definition formatICSDate :: "int \<Rightarrow> Date \<Rightarrow> js_error + string" where
  "formatICSDate tz d =
     (let eventDate = d;
          eventDate = setHours tz eventDate 9 0 0 0
      in case toISOString eventDate of
           Inl e \<Rightarrow> Inl e
         | Inr isoString \<Rightarrow> Inr (compact isoString))"

definition formatICSDateEnd :: "int \<Rightarrow> Date \<Rightarrow> js_error + string" where
  "formatICSDateEnd tz d =
     (let eventDate = d;
          eventDate = setHours tz eventDate 10 0 0 0
      in case toISOString eventDate of
           Inl e \<Rightarrow> Inl e
         | Inr isoString \<Rightarrow> Inr (compact isoString))"

definition escapeICSText :: "string \<Rightarrow> string" where
  "escapeICSText text' =
     replace_char LF [backslash, CHR ''n'']
       (replace_char CHR '','' [backslash, CHR '','']
          (replace_char CHR '';'' [backslash, CHR '';'']
             (replace_char backslash [backslash, backslash] text')))"

definition getReviewLabel :: "ScheduledReview \<Rightarrow> string" where
  "getReviewLabel review =
     (if isInitialLearning review then ''Learn''
      else ''Review '' @ intToString (reviewNumber review))"

definition generateEventDescription :: "ScheduledReview \<Rightarrow> LearningModule \<Rightarrow> string" where
  "generateEventDescription review module =
     (let lines =
            (if isInitialLearning review
             then [''Learn Chapter '' @ intToString (chapter module) @ '': '' @ title module]
             else [''Review '' @ intToString (reviewNumber review) @ '' of 6 for Chapter ''
                   @ intToString (chapter module)]);
          lines = lines @ ['''', ''Concepts to review:''];
          lines = lines @ map (\<lambda>concept. bullet @ '' '' @ concept) (concepts module);
          lines =
            (if length (reviewQuestions module) > 0
             then lines @ ['''', ''Review questions:'']
                  @ map (\<lambda>(i, question). intToString (int i + 1) @ ''. '' @ question)
                      (enumerate 0 (reviewQuestions module))
             else lines);
          lines = lines @ ['''', ''Tutorial: tutorial.html'' @ tutorialAnchor module]
      in join [LF] lines)"

definition generateEventTitle :: "ScheduledReview \<Rightarrow> LearningModule \<Rightarrow> string" where
  "generateEventTitle review module =
     (let label = getReviewLabel review
      in label @ '': '' @ title module)"

definition eventUid :: "ScheduledReview \<Rightarrow> string" where
  "eventUid review =
     moduleId review @ ''-r'' @ intToString (reviewNumber review) @ ''-''
     @ numberToString (getTime (date review)) @ ''@tvwriter-explorer''"

text \<open>
  The elements of the array literal are evaluated in order, so a start stamp that
  throws is met before the end stamp; both throw the same error.
\<close>

definition generateICSEvent :: "int \<Rightarrow> ScheduledReview \<Rightarrow> LearningModule \<Rightarrow> js_error + string" where
  "generateICSEvent tz review module =
     (let title' = generateEventTitle review module;
          description = generateEventDescription review module;
          uid = eventUid review
      in case formatICSDate tz (date review) of
           Inl e \<Rightarrow> Inl e
         | Inr dtstart \<Rightarrow>
             (case formatICSDateEnd tz (date review) of
                Inl e \<Rightarrow> Inl e
              | Inr dtend \<Rightarrow>
                  Inr (join CRLF
                         [''BEGIN:VEVENT'',
                          ''DTSTART:'' @ dtstart,
                          ''DTEND:'' @ dtend,
                          ''SUMMARY:'' @ escapeICSText title',
                          ''DESCRIPTION:'' @ escapeICSText description,
                          ''UID:'' @ uid,
                          ''END:VEVENT''])))"

text \<open>
  \<open>new Map(modules.map((m) => [m.id, m]))\<close>: the entries are set in order, so of two
  modules with one id the later one stays.
\<close>

definition moduleMap :: "LearningModule list \<Rightarrow> (string \<rightharpoonup> LearningModule)" where
  "moduleMap modules' = foldl (\<lambda>mp m. mp(id' m \<mapsto> m)) Map.empty modules'"

text \<open>
  The \<open>map\<close> callback runs on the reviews in order and the first throw leaves the
  function; a review with no module yields \<open>null\<close>, which the \<open>filter\<close> drops.
\<close>

fun mapEvents ::
  "int \<Rightarrow> (string \<rightharpoonup> LearningModule) \<Rightarrow> ScheduledReview list \<Rightarrow> js_error + string option list"
where
  "mapEvents tz mp [] = Inr []"
| "mapEvents tz mp (review # rest) =
     (case (case mp (moduleId review) of
              None \<Rightarrow> Inr None
            | Some module \<Rightarrow>
                (case generateICSEvent tz review module of
                   Inl e \<Rightarrow> Inl e
                 | Inr ev \<Rightarrow> Inr (Some ev))) of
        Inl e \<Rightarrow> Inl e
      | Inr x \<Rightarrow> (case mapEvents tz mp rest of Inl e \<Rightarrow> Inl e | Inr xs \<Rightarrow> Inr (x # xs)))"

definition notNull :: "string option list \<Rightarrow> string list" where
  "notNull xs = map the (filter (\<lambda>event. event \<noteq> None) xs)"

definition generateICSFile ::
  "int \<Rightarrow> ScheduledReview list \<Rightarrow> LearningModule list \<Rightarrow> js_error + string"
where
  "generateICSFile tz reviews' modules' =
     (let mp = moduleMap modules'
      in case mapEvents tz mp reviews' of
           Inl e \<Rightarrow> Inl e
         | Inr evs \<Rightarrow>
             (let events = notNull evs
              in Inr (join CRLF
                        ([''BEGIN:VCALENDAR'',
                          ''VERSION:2.0'',
                          ''PRODID:-//TV Writer Explorer//Learning Schedule//EN'',
                          ''CALSCALE:GREGORIAN'',
                          ''METHOD:PUBLISH'']
                         @ events
                         @ [''END:VCALENDAR'']))))"

section \<open>Notions used to state the properties\<close>

text \<open>A time value that a valid Date can hold.\<close>

definition validTime :: "int \<Rightarrow> bool" where
  "validTime t = (\<bar>t\<bar> \<le> 8640000000000000)"

text \<open>
  The offset in days of review number \<open>k\<close> from the module's learning day: nothing
  for the initial learning, then the interval ladder.
\<close>

definition offsetDays :: "nat \<Rightarrow> int" where
  "offsetDays k = (0 # REVIEW_INTERVALS) ! k"

text \<open>
  The review that \<open>generateSchedule\<close> pushes for the module \<open>m\<close> at catalog index \<open>i\<close>
  as that module's \<open>k\<close>-th review (\<open>moduleReviews_map\<close> below).
\<close>

definition reviewOf :: "int \<Rightarrow> Date \<Rightarrow> nat \<Rightarrow> LearningModule \<Rightarrow> nat \<Rightarrow> ScheduledReview" where
  "reviewOf tz sd i m k =
     \<lparr>moduleId = id' m,
      date = (if k = 0 then addDays tz sd (int i)
              else addDays tz (addDays tz sd (int i)) (REVIEW_INTERVALS ! (k - 1))),
      reviewNumber = int k, isInitialLearning = (k = 0)\<rparr>"

text \<open>
  The escaping of one character, by the quoting rules of the calendar format (RFC 5545,
  section 3.3.11): the backslash is doubled, a semicolon or a comma gets a backslash
  before it, and a line feed becomes a backslash and the letter n.
\<close>

definition escapeChar :: "char \<Rightarrow> string" where
  "escapeChar c =
     (if c = backslash then [backslash, backslash]
      else if c = CHR '';'' then [backslash, CHR '';'']
      else if c = CHR '','' then [backslash, CHR '','']
      else if c = LF then [backslash, CHR ''n'']
      else [c])"

text \<open>
  How a calendar client reads an escaped text back: a backslash and the letter n (or
  N) are a line feed, and a backslash before any other character gives that character.
\<close>

fun unescapeICSText :: "string \<Rightarrow> string" where
  "unescapeICSText [] = []"
| "unescapeICSText [c] = [c]"
| "unescapeICSText (c # d # cs) =
     (if c = backslash
      then (if d = CHR ''n'' \<or> d = CHR ''N'' then LF else d) # unescapeICSText cs
      else c # unescapeICSText (d # cs))"






text \<open>The instant at which the local clock shows the hour \<open>h\<close> on the local day of \<open>t\<close>.\<close>

definition localHourOfDay :: "int \<Rightarrow> int \<Rightarrow> int \<Rightarrow> int" where
  "localHourOfDay tz t h = Day (LocalTime tz t) * msPerDay + h * msPerHour - tz"

text \<open>
  A review date that the encoder can write: a valid date whose 09:00 and 10:00 local
  instants are within the range of Date (otherwise \<open>toISOString\<close> throws).
\<close>

definition encodable :: "int \<Rightarrow> Date \<Rightarrow> bool" where
  "encodable tz d =
     (case d of
        None \<Rightarrow> False
      | Some t \<Rightarrow> validTime (localHourOfDay tz t 9) \<and> validTime (localHourOfDay tz t 10))"

text \<open>The five lines that open the calendar file.\<close>

definition calendarHeader :: "string list" where
  "calendarHeader =
     [''BEGIN:VCALENDAR'', ''VERSION:2.0'',
      ''PRODID:-//TV Writer Explorer//Learning Schedule//EN'',
      ''CALSCALE:GREGORIAN'', ''METHOD:PUBLISH'']"

section \<open>The operations on a store of objects\<close>

text \<open>
  The functions above take a Date for its time value. In the program a Date is a mutable
  object, passed by reference, and so is the array of modules. To speak about what an
  operation changes and what its result shares with its arguments, this section gives
  the date-handling operations once more over an explicit store: a Date is a reference
  into \<open>dateObjs\<close>, which maps it to its time value, and a module array is a reference into
  \<open>moduleArrays\<close>. \<open>new Date(...)\<close> takes the next free reference. The review objects and
  the \<open>reviews\<close> array are built by the call itself and are kept as values.
\<close>

type_synonym ref = nat

record heap =
  dateObjs :: "ref \<rightharpoonup> Number"
  moduleArrays :: "ref \<rightharpoonup> LearningModule list"
  nextRef :: ref




definition moduleList :: "heap \<Rightarrow> ref \<Rightarrow> LearningModule list" where
  "moduleList h r = (case moduleArrays h r of None \<Rightarrow> [] | Some ms \<Rightarrow> ms)"
















definition extends :: "heap \<Rightarrow> heap \<Rightarrow> bool" where
  "extends h h' =
     (nextRef h \<le> nextRef h' \<and> (\<forall>r. r < nextRef h \<longrightarrow> dateObjs h' r = dateObjs h r)
      \<and> moduleArrays h' = moduleArrays h)"


section \<open>Properties of the calendar arithmetic\<close>











lemma MonthFromTime_range: "0 \<le> MonthFromTime t" "MonthFromTime t \<le> 11"
  by (simp_all add: MonthFromTime_def Let_def)



text \<open>
  The day number built from the calendar fields of a time is the day of that time, so
  setting the day of the month to \<open>getDate() + n\<close> moves the time by \<open>n\<close> whole days.
\<close>

lemma MakeDay_fields:
  "MakeDay (YearFromTime t) (MonthFromTime t) (DateFromTime t + n) = Day t + n"
proof -
  have m: "MonthFromTime t div 12 = 0" "MonthFromTime t mod 12 = MonthFromTime t"
    using MonthFromTime_range [of t] by auto
  have "firstDayOfMonth (MonthFromTime t) (InLeapYear t) + DateFromTime t - 1 = DayWithinYear t"
    by (simp add: firstDayOfMonth_def DateFromTime_def Let_def)
  then show ?thesis
    by (simp add: MakeDay_def m Let_def InLeapYear_def DayWithinYear_def)
qed

lemma Day_TimeWithinDay: "Day t * msPerDay + TimeWithinDay t = t"
  by (simp add: Day_def TimeWithinDay_def)

lemma setDate_shift:
  "setDate tz (Some t) (num_add (getDate tz (Some t)) (Some n)) = TimeClip (t + n * msPerDay)"
proof -
  have "MakeDate (Day (t + tz) + n) (TimeWithinDay (t + tz)) = t + tz + n * msPerDay"
    using Day_TimeWithinDay [of "t + tz"] by (simp add: MakeDate_def algebra_simps)
  then show ?thesis
    by (simp add: setDate_def getDate_def num_add_def LocalTime_def UTC_def
        MakeDay_fields Let_def)
qed

lemma addDays_Some: "addDays tz (Some t) n = TimeClip (t + n * msPerDay)"
  by (simp add: addDays_def Let_def setDate_shift)

lemma addDays_None: "addDays tz None n = None"
  by (simp add: addDays_def Let_def setDate_def)

lemma TimeClip_Some: "\<bar>t\<bar> \<le> 8640000000000000 \<Longrightarrow> TimeClip t = Some t"
  by (simp add: TimeClip_def)


lemma TimeWithinDay_shift: "TimeWithinDay (t + n * msPerDay) = TimeWithinDay t"
  by (simp add: TimeWithinDay_def msPerDay_def)

section \<open>Properties of the schedule generator\<close>

lemma length_insert_by: "length (insert_by cmp x xs) = Suc (length xs)"
  by (induction xs) simp_all

lemma set_insert_by: "set (insert_by cmp x xs) = insert x (set xs)"
  by (induction xs) auto

lemma filter_length_insert_by:
  "length (filter P (insert_by cmp x xs)) = length (filter P (x # xs))"
  by (induction xs) auto

lemma length_array_sort: "length (array_sort cmp xs) = length xs"
  by (induction xs) (simp_all add: array_sort_def length_insert_by)

lemma set_array_sort: "set (array_sort cmp xs) = set xs"
  by (induction xs) (simp_all add: array_sort_def set_insert_by)

lemma filter_length_array_sort:
  "length (filter P (array_sort cmp xs)) = length (filter P xs)"
proof (induction xs)
  case Nil
  then show ?case by (simp add: array_sort_def)
next
  case (Cons x xs)
  have "array_sort cmp (x # xs) = insert_by cmp x (array_sort cmp xs)"
    by (simp add: array_sort_def)
  then show ?case using Cons by (simp add: filter_length_insert_by)
qed



lemma moduleReviews_map: "moduleReviews tz sd i m = map (reviewOf tz sd i m) [0..<7]"
  by (simp add: moduleReviews_def reviewOf_def REVIEW_INTERVALS_def Let_def upt_rec)

lemma concat_nth_uniform:
  "\<forall>xs \<in> set xss. length xs = n \<Longrightarrow> i < length xss \<Longrightarrow> k < n \<Longrightarrow>
   concat xss ! (i * n + k) = xss ! i ! k"
proof (induction xss arbitrary: i)
  case Nil
  then show ?case by simp
next
  case (Cons xs xss)
  show ?case
  proof (cases i)
    case 0
    then show ?thesis using Cons.prems by (simp add: nth_append)
  next
    case (Suc j)
    then have "concat (xs # xss) ! (i * n + k) = concat xss ! (j * n + k)"
      using Cons.prems by (simp add: nth_append)
    then show ?thesis using Cons Suc by simp
  qed
qed

lemma length_concat_uniform:
  "\<forall>xs \<in> set xss. length xs = n \<Longrightarrow> length (concat xss) = length xss * n"
  by (induction xss) simp_all

lemma length_pushedReviews: "length (pushedReviews tz sd ms) = 7 * length ms"
proof -
  let ?xss = "map (\<lambda>(index, module). moduleReviews tz sd index module) (enumerate 0 ms)"
  have "\<forall>xs \<in> set ?xss. length xs = 7"
    by (auto simp: moduleReviews_map)
  then have "length (concat ?xss) = length ?xss * 7"
    by (rule length_concat_uniform)
  then show ?thesis by (simp add: pushedReviews_def)
qed

lemma nth_pushedReviews:
  assumes "i < length ms" "k < 7"
  shows "pushedReviews tz sd ms ! (i * 7 + k) = reviewOf tz sd i (ms ! i) k"
proof -
  let ?xss = "map (\<lambda>(index, module). moduleReviews tz sd index module) (enumerate 0 ms)"
  have "concat ?xss ! (i * 7 + k) = ?xss ! i ! k"
    using assms by (intro concat_nth_uniform) (auto simp: moduleReviews_map)
  moreover have "?xss ! i = moduleReviews tz sd i (ms ! i)"
    using assms by (simp add: nth_enumerate_eq)
  ultimately show ?thesis
    using assms by (simp add: pushedReviews_def moduleReviews_map del: upt_Suc)
qed

lemma set_pushedReviews:
  "set (pushedReviews tz sd ms) = {reviewOf tz sd i (ms ! i) k | i k. i < length ms \<and> k < 7}"
proof -
  have "set (pushedReviews tz sd ms) =
          {pushedReviews tz sd ms ! j | j. j < 7 * length ms}"
    by (simp add: set_conv_nth length_pushedReviews)
  also have "\<dots> = {reviewOf tz sd i (ms ! i) k | i k. i < length ms \<and> k < 7}"
  proof (intro set_eqI iffI)
    fix r assume "r \<in> {pushedReviews tz sd ms ! j | j. j < 7 * length ms}"
    then obtain j where j: "j < 7 * length ms" "r = pushedReviews tz sd ms ! j" by blast
    have "j = (j div 7) * 7 + j mod 7" by simp
    moreover have "j div 7 < length ms" "j mod 7 < 7" using j by auto
    ultimately have "r = reviewOf tz sd (j div 7) (ms ! (j div 7)) (j mod 7)"
      using j nth_pushedReviews [of "j div 7" ms "j mod 7" tz sd] by simp
    then show "r \<in> {reviewOf tz sd i (ms ! i) k | i k. i < length ms \<and> k < 7}"
      using \<open>j div 7 < length ms\<close> \<open>j mod 7 < 7\<close> by blast
  next
    fix r assume "r \<in> {reviewOf tz sd i (ms ! i) k | i k. i < length ms \<and> k < 7}"
    then obtain i k where ik: "i < length ms" "k < 7" "r = reviewOf tz sd i (ms ! i) k" by blast
    then have "i * 7 + k < 7 * length ms" by simp
    moreover have "r = pushedReviews tz sd ms ! (i * 7 + k)"
      using ik nth_pushedReviews [of i ms k tz sd] by simp
    ultimately show "r \<in> {pushedReviews tz sd ms ! j | j. j < 7 * length ms}"
      by blast
  qed
  finally show ?thesis .
qed

lemma offsetDays_simps:
  "offsetDays 0 = 0" "offsetDays (Suc 0) = 1" "offsetDays 2 = 3" "offsetDays 3 = 7"
  "offsetDays 4 = 14" "offsetDays 5 = 30" "offsetDays 6 = 60"
  by (simp_all add: offsetDays_def REVIEW_INTERVALS_def numeral_eq_Suc)

lemma lt7_cases: "k < 7 \<Longrightarrow> k = 0 \<or> k = Suc 0 \<or> k = 2 \<or> k = 3 \<or> k = 4 \<or> k = 5 \<or> k = (6::nat)"
  by arith

lemma offsetDays_range: "k < 7 \<Longrightarrow> 0 \<le> offsetDays k \<and> offsetDays k \<le> 60"
  using lt7_cases [of k] by (auto simp: offsetDays_simps)

lemma offsetDays_mono: "k < 7 \<Longrightarrow> j < k \<Longrightarrow> offsetDays j < offsetDays k"
  using lt7_cases [of k] lt7_cases [of j] by (auto simp: offsetDays_simps)

lemma offsetDays_interval: "0 < k \<Longrightarrow> k < 7 \<Longrightarrow> REVIEW_INTERVALS ! (k - 1) = offsetDays k"
  by (cases k) (simp_all add: offsetDays_def)

lemma addDays_twice:
  assumes "validTime t" "0 \<le> i" "0 \<le> n"
  shows "addDays tz (addDays tz (Some t) i) n = TimeClip (t + (i + n) * msPerDay)"
proof (cases "t + i * msPerDay \<le> 8640000000000000")
  case True
  moreover have "0 \<le> i * msPerDay" using assms by (simp add: msPerDay_def)
  ultimately have "TimeClip (t + i * msPerDay) = Some (t + i * msPerDay)"
    using assms(1) by (simp add: TimeClip_def validTime_def)
  then show ?thesis by (simp add: addDays_Some algebra_simps)
next
  case False
  moreover have "0 \<le> n * msPerDay" using assms by (simp add: msPerDay_def)
  ultimately have "TimeClip (t + i * msPerDay) = None" "TimeClip (t + (i + n) * msPerDay) = None"
    by (simp_all add: TimeClip_def algebra_simps)
  then show ?thesis by (simp add: addDays_Some addDays_None)
qed

lemma date_reviewOf:
  assumes "validTime t" "k < 7"
  shows "date (reviewOf tz (Some t) i m k) = TimeClip (t + (int i + offsetDays k) * msPerDay)"
proof (cases "k = 0")
  case True
  then show ?thesis by (simp add: reviewOf_def addDays_Some offsetDays_simps)
next
  case False
  then have "REVIEW_INTERVALS ! (k - 1) = offsetDays k" "0 \<le> offsetDays k"
    using assms offsetDays_interval [of k] offsetDays_range [of k] by simp_all
  then show ?thesis
    using False assms addDays_twice [of t "int i" "offsetDays k" tz] by (simp add: reviewOf_def)
qed


lemma reviews_generateSchedule:
  "reviews (generateSchedule tz sd ms) = array_sort compareByDate (pushedReviews tz sd ms)"
  by (simp add: generateSchedule_def Let_def)


lemma reviewOf_sel:
  "moduleId (reviewOf tz sd i m k) = id' m"
  "reviewNumber (reviewOf tz sd i m k) = int k"
  "isInitialLearning (reviewOf tz sd i m k) = (k = 0)"
  by (simp_all add: reviewOf_def)

lemma count_moduleReviews_id:
  "length (filter (\<lambda>r. moduleId r = x) (moduleReviews tz sd i m)) = (if id' m = x then 7 else 0)"
  by (simp add: moduleReviews_map reviewOf_sel upt_rec)

lemma count_moduleReviews_number:
  "k < 7 \<Longrightarrow>
   length (filter (\<lambda>r. moduleId r = x \<and> reviewNumber r = int k) (moduleReviews tz sd i m)) =
     (if id' m = x then 1 else 0)"
  using lt7_cases [of k] by (auto simp add: moduleReviews_map reviewOf_sel upt_rec)

lemma count_pushed_id:
  "length (filter (\<lambda>r. moduleId r = x)
     (concat (map (\<lambda>(index, module). moduleReviews tz sd index module) (enumerate n ms)))) =
   7 * length (filter (\<lambda>m. id' m = x) ms)"
  by (induction ms arbitrary: n) (simp_all add: count_moduleReviews_id)

lemma count_pushed_number:
  "k < 7 \<Longrightarrow>
   length (filter (\<lambda>r. moduleId r = x \<and> reviewNumber r = int k)
     (concat (map (\<lambda>(index, module). moduleReviews tz sd index module) (enumerate n ms)))) =
   length (filter (\<lambda>m. id' m = x) ms)"
  by (induction ms arbitrary: n) (simp_all add: count_moduleReviews_number)

lemma distinct_count_one:
  "distinct (map f xs) \<Longrightarrow> x \<in> set xs \<Longrightarrow> length (filter (\<lambda>y. f y = f x) xs) = 1"
proof (induction xs)
  case Nil
  then show ?case by simp
next
  case (Cons a xs)
  show ?case
  proof (cases "f a = f x")
    case True
    then have "f x \<notin> f ` set xs" using Cons.prems by simp
    then have "\<forall>y \<in> set xs. f y \<noteq> f x" by (metis imageI)
    then have "filter (\<lambda>y. f y = f x) xs = []" by (simp add: filter_empty_conv)
    then show ?thesis using True by simp
  next
    case False
    then have "x \<in> set xs" using Cons.prems by auto
    then show ?thesis using Cons False by simp
  qed
qed

lemma in_range_dates:
  assumes "validTime t" "validTime (t + (int n + 59) * msPerDay)" "i < n" "k < 7"
  shows "TimeClip (t + (int i + offsetDays k) * msPerDay) = Some (t + (int i + offsetDays k) * msPerDay)"
proof -
  have "0 \<le> int i + offsetDays k" "int i + offsetDays k \<le> int n + 59"
    using assms offsetDays_range [of k] by auto
  then have "0 \<le> (int i + offsetDays k) * msPerDay"
    "(int i + offsetDays k) * msPerDay \<le> (int n + 59) * msPerDay"
    by (simp_all add: msPerDay_def)
  then show ?thesis
    using assms(1,2) by (simp add: TimeClip_def validTime_def)
qed

lemma mem_reviews:
  "i < length ms \<Longrightarrow> k < 7 \<Longrightarrow>
   reviewOf tz sd i (ms ! i) k \<in> set (reviews (generateSchedule tz sd ms))"
  by (auto simp: reviews_generateSchedule set_array_sort set_pushedReviews)





section \<open>Properties of the text encoding\<close>

declare digits.simps [simp del]

lemma replace_char_append:
  "replace_char c r (xs @ ys) = replace_char c r xs @ replace_char c r ys"
  by (simp add: replace_char_def)

lemma replace_char_Nil: "replace_char c r [] = []"
  by (simp add: replace_char_def)

lemma replace_char_Cons:
  "replace_char c r (x # xs) = (if x = c then r else [x]) @ replace_char c r xs"
  by (simp add: replace_char_def)

lemma special_chars_distinct:
  "backslash \<noteq> CHR '';''" "backslash \<noteq> CHR '',''" "backslash \<noteq> LF" "backslash \<noteq> CHR ''n''"
  "LF \<noteq> CHR '';''" "LF \<noteq> CHR '',''" "LF \<noteq> CHR ''n''" "LF \<noteq> CHR ''N''"
  "backslash \<noteq> CHR ''N''" "CR \<noteq> LF"
  by (simp_all add: backslash_def LF_def CR_def)

lemma escapeICSText_Nil: "escapeICSText [] = []"
  by (simp add: escapeICSText_def replace_char_Nil)

lemma escapeICSText_Cons: "escapeICSText (c # cs) = escapeChar c @ escapeICSText cs"
  using special_chars_distinct
  by (simp add: escapeICSText_def escapeChar_def replace_char_Cons replace_char_append
      replace_char_Nil)

lemma escapeICSText_chars: "escapeICSText s = concat (map escapeChar s)"
  by (induction s) (simp_all add: escapeICSText_Nil escapeICSText_Cons)

lemma escapeICSText_append:
  "escapeICSText (xs @ ys) = escapeICSText xs @ escapeICSText ys"
  by (simp add: escapeICSText_chars)

lemma LF_notin_escapeChar: "LF \<notin> set (escapeChar c)"
  using special_chars_distinct by (auto simp: escapeChar_def)

lemma LF_notin_escapeICSText: "LF \<notin> set (escapeICSText s)"
  by (auto simp: escapeICSText_chars LF_notin_escapeChar)

lemma unescape_escapeChar:
  "unescapeICSText (escapeChar c @ rest) = c # unescapeICSText rest"
proof (cases rest)
  case Nil
  then show ?thesis using special_chars_distinct by (simp add: escapeChar_def)
next
  case (Cons a as)
  then show ?thesis using special_chars_distinct by (simp add: escapeChar_def)
qed

lemma unescape_escape: "unescapeICSText (escapeICSText s) = s"
  by (induction s) (simp_all add: escapeICSText_Nil escapeICSText_Cons unescape_escapeChar)





















lemma toISOString_Some:
  "toISOString (Some u) =
     Inr (isoYear (YearFromTime u) @ ''-'' @ two (MonthFromTime u + 1) @ ''-''
          @ two (DateFromTime u) @ ''T'' @ two (HourFromTime u) @ '':''
          @ two (MinFromTime u) @ '':'' @ two (SecFromTime u) @ ''.''
          @ padStart 3 (digits (nat (msFromTime u))) @ ''Z'')"
  by (simp add: toISOString_def)





lemma setHours_Some:
  "setHours tz (Some t) h 0 0 0 = TimeClip (localHourOfDay tz t h)"
  by (simp add: setHours_def localHourOfDay_def MakeDate_def MakeTime_def UTC_def Let_def)




lemma join_CRLF_event:
  "join CRLF [a, b, c, d, e, f, g] =
     a @ CRLF @ b @ CRLF @ c @ CRLF @ d @ CRLF @ e @ CRLF @ f @ CRLF @ g"
  by simp

lemma generateICSEvent_block:
  assumes "formatICSDate tz (date review) = Inr s1" "formatICSDateEnd tz (date review) = Inr s2"
  shows "generateICSEvent tz review module =
           Inr (''BEGIN:VEVENT'' @ CRLF @ (''DTSTART:'' @ s1) @ CRLF @ (''DTEND:'' @ s2) @ CRLF
                @ (''SUMMARY:'' @ escapeICSText (generateEventTitle review module)) @ CRLF
                @ (''DESCRIPTION:'' @ escapeICSText (generateEventDescription review module)) @ CRLF
                @ (''UID:'' @ eventUid review) @ CRLF @ ''END:VEVENT'')"
  using assms by (simp only: generateICSEvent_def Let_def join_CRLF_event sum.case)

lemma join_mem: "x \<in> set xs \<Longrightarrow> \<exists>a b. join sep xs = a @ x @ b"
proof (induction sep xs rule: join.induct)
  case (1 sep)
  then show ?case by simp
next
  case (2 sep y)
  then have "join sep [y] = [] @ x @ []" by simp
  then show ?case by blast
next
  case (3 sep y z zs)
  show ?case
  proof (cases "x = y")
    case True
    then have "join sep (y # z # zs) = [] @ x @ (sep @ join sep (z # zs))" by simp
    then show ?thesis by blast
  next
    case False
    then have "x \<in> set (z # zs)" using 3 by simp
    then obtain a b where "join sep (z # zs) = a @ x @ b" using 3 by blast
    then have "join sep (y # z # zs) = (y @ sep @ a) @ x @ b" by simp
    then show ?thesis by blast
  qed
qed

lemma description_lines:
  "\<exists>first rest. generateEventDescription review module =
     join [LF] (first
                @ map (\<lambda>concept. bullet @ '' '' @ concept) (concepts module)
                @ (if length (reviewQuestions module) > 0
                   then ['''', ''Review questions:'']
                        @ map (\<lambda>(i, question). intToString (int i + 1) @ ''. '' @ question)
                            (enumerate 0 (reviewQuestions module))
                   else [])
                @ rest)"
proof -
  let ?f = "(if isInitialLearning review
             then [''Learn Chapter '' @ intToString (chapter module) @ '': '' @ title module]
             else [''Review '' @ intToString (reviewNumber review) @ '' of 6 for Chapter ''
                   @ intToString (chapter module)]) @ ['''', ''Concepts to review:'']"
  let ?r = "['''', ''Tutorial: tutorial.html'' @ tutorialAnchor module]"
  have "generateEventDescription review module =
     join [LF] (?f
                @ map (\<lambda>concept. bullet @ '' '' @ concept) (concepts module)
                @ (if length (reviewQuestions module) > 0
                   then ['''', ''Review questions:'']
                        @ map (\<lambda>(i, question). intToString (int i + 1) @ ''. '' @ question)
                            (enumerate 0 (reviewQuestions module))
                   else [])
                @ ?r)"
    by (simp add: generateEventDescription_def Let_def)
  then show ?thesis by blast
qed

lemma description_concept:
  assumes "c \<in> set (concepts module)"
  shows "\<exists>a b. generateEventDescription review module = a @ c @ b"
proof -
  obtain first rest where d: "generateEventDescription review module =
     join [LF] (first
                @ map (\<lambda>concept. bullet @ '' '' @ concept) (concepts module)
                @ (if length (reviewQuestions module) > 0
                   then ['''', ''Review questions:'']
                        @ map (\<lambda>(i, question). intToString (int i + 1) @ ''. '' @ question)
                            (enumerate 0 (reviewQuestions module))
                   else [])
                @ rest)" (is "_ = join [LF] ?lines")
    using description_lines by blast
  have "bullet @ '' '' @ c \<in> set ?lines" using assms by simp
  then obtain a b where "join [LF] ?lines = a @ (bullet @ '' '' @ c) @ b"
    using join_mem by blast
  then have "generateEventDescription review module = (a @ bullet @ '' '') @ c @ b"
    using d by simp
  then show ?thesis by blast
qed

lemma description_question:
  assumes "q \<in> set (reviewQuestions module)"
  shows "\<exists>a b. generateEventDescription review module = a @ q @ b"
proof -
  obtain first rest where d: "generateEventDescription review module =
     join [LF] (first
                @ map (\<lambda>concept. bullet @ '' '' @ concept) (concepts module)
                @ (if length (reviewQuestions module) > 0
                   then ['''', ''Review questions:'']
                        @ map (\<lambda>(i, question). intToString (int i + 1) @ ''. '' @ question)
                            (enumerate 0 (reviewQuestions module))
                   else [])
                @ rest)" (is "_ = join [LF] ?lines")
    using description_lines by blast
  obtain i where i: "i < length (reviewQuestions module)" "reviewQuestions module ! i = q"
    using assms by (auto simp: in_set_conv_nth)
  then have "(i, q) \<in> set (enumerate 0 (reviewQuestions module))"
    by (auto simp: in_set_conv_nth nth_enumerate_eq)
  then have "intToString (int i + 1) @ ''. '' @ q
          \<in> set (map (\<lambda>(i, question). intToString (int i + 1) @ ''. '' @ question)
                   (enumerate 0 (reviewQuestions module)))"
    by force
  moreover have "length (reviewQuestions module) > 0" using i(1) by linarith
  ultimately have "intToString (int i + 1) @ ''. '' @ q \<in> set ?lines" by simp
  then obtain a b where "join [LF] ?lines = a @ (intToString (int i + 1) @ ''. '' @ q) @ b"
    using join_mem by blast
  then have "generateEventDescription review module = (a @ intToString (int i + 1) @ ''. '') @ q @ b"
    using d by simp
  then show ?thesis by blast
qed

lemma generateICSEvent_Inr:
  assumes "generateICSEvent tz review module = Inr block"
  shows "\<exists>s1 s2. formatICSDate tz (date review) = Inr s1 \<and> formatICSDateEnd tz (date review) = Inr s2"
  using assms by (auto simp: generateICSEvent_def Let_def split: sum.splits)

lemma formatICSDate_valid:
  assumes "validTime (localHourOfDay tz t 9)"
  shows "\<exists>s. formatICSDate tz (Some t) = Inr s"
proof -
  have "setHours tz (Some t) 9 0 0 0 = Some (localHourOfDay tz t 9)"
    using assms by (simp add: setHours_Some TimeClip_def validTime_def)
  then show ?thesis
    by (simp only: formatICSDate_def Let_def toISOString_Some sum.case) blast
qed

lemma formatICSDateEnd_valid:
  assumes "validTime (localHourOfDay tz t 10)"
  shows "\<exists>s. formatICSDateEnd tz (Some t) = Inr s"
proof -
  have "setHours tz (Some t) 10 0 0 0 = Some (localHourOfDay tz t 10)"
    using assms by (simp add: setHours_Some TimeClip_def validTime_def)
  then show ?thesis
    by (simp only: formatICSDateEnd_def Let_def toISOString_Some sum.case) blast
qed

text \<open>Encoding an event whose date can be written does not throw.\<close>

lemma generateICSEvent_encodable:
  assumes "encodable tz (date review)"
  shows "\<exists>block. generateICSEvent tz review module = Inr block"
proof -
  obtain t where t: "date review = Some t" "validTime (localHourOfDay tz t 9)"
    "validTime (localHourOfDay tz t 10)"
    using assms by (auto simp: encodable_def split: option.splits)
  obtain s1 s2 where "formatICSDate tz (date review) = Inr s1"
    "formatICSDateEnd tz (date review) = Inr s2"
    using formatICSDate_valid [OF t(2)] formatICSDateEnd_valid [OF t(3)] t(1) by auto
  then show ?thesis
    using generateICSEvent_block [of tz review s1 s2 module] by blast
qed

lemma moduleMap_fold:
  "foldl (\<lambda>mp m. mp(id' m \<mapsto> m)) mp0 ms k = None \<longleftrightarrow> mp0 k = None \<and> k \<notin> id' ` set ms"
  by (induction ms arbitrary: mp0) auto

lemma moduleMap_None: "moduleMap ms k = None \<longleftrightarrow> k \<notin> id' ` set ms"
  by (simp add: moduleMap_def moduleMap_fold)

lemma getModuleById_None: "getModuleById s mid = None \<longleftrightarrow> mid \<notin> id' ` set (modules s)"
  by (auto simp: getModuleById_def find_None_iff)

lemma getModuleById_Some:
  "getModuleById s mid = Some m \<Longrightarrow> m \<in> set (modules s) \<and> id' m = mid"
  by (auto simp: getModuleById_def find_Some_iff)

lemma mapEvents_skip:
  assumes "\<forall>r \<in> set rs. mp (moduleId r) \<noteq> None \<longrightarrow> encodable tz (date r)"
  shows "\<exists>evs. mapEvents tz mp rs = Inr evs
           \<and> map Inr (notNull evs) =
               map (\<lambda>r. generateICSEvent tz r (the (mp (moduleId r))))
                 (filter (\<lambda>r. mp (moduleId r) \<noteq> None) rs)"
  using assms
proof (induction rs)
  case Nil
  then show ?case by (simp add: notNull_def)
next
  case (Cons r rs)
  then obtain evs where evs: "mapEvents tz mp rs = Inr evs"
    "map Inr (notNull evs) =
       map (\<lambda>r. generateICSEvent tz r (the (mp (moduleId r))))
         (filter (\<lambda>r. mp (moduleId r) \<noteq> None) rs)"
    by auto
  show ?case
  proof (cases "mp (moduleId r)")
    case None
    then have "mapEvents tz mp (r # rs) = Inr (None # evs)" using evs by simp
    moreover have "notNull (None # evs) = notNull evs" by (simp add: notNull_def)
    ultimately show ?thesis using evs None by simp
  next
    case (Some m)
    then have "encodable tz (date r)" using Cons.prems by simp
    then obtain block where b: "generateICSEvent tz r m = Inr block"
      using generateICSEvent_encodable by blast
    then have "mapEvents tz mp (r # rs) = Inr (Some block # evs)" using evs Some by simp
    moreover have "notNull (Some block # evs) = block # notNull evs" by (simp add: notNull_def)
    ultimately show ?thesis using evs Some b by simp
  qed
qed

lemma digit_simps:
  "digit 0 = CHR ''0''" "digit 1 = CHR ''1''" "digit (Suc 0) = CHR ''1''" "digit 2 = CHR ''2''"
  "digit 3 = CHR ''3''" "digit 4 = CHR ''4''" "digit 5 = CHR ''5''" "digit 6 = CHR ''6''"
  "digit 7 = CHR ''7''" "digit 8 = CHR ''8''" "digit 9 = CHR ''9''"
  by code_simp+

section \<open>Properties of the operations on the store\<close>




lemma extends_moduleList: "extends h h' \<Longrightarrow> moduleList h' r = moduleList h r"
  by (simp add: extends_def moduleList_def)














section \<open>The claims\<close>

subsection \<open>C1: the dates of the generated reviews\<close>



subsection \<open>C2: seven reviews for each module\<close>

text \<open>
  Claim C2. For every start date (valid or not) and every module list, the schedule
  holds \<open>7 * |modules|\<close> reviews, and each review has a review number from 0 to 6 and
  is flagged as initial learning exactly when its number is 0. When the ids of the
  modules are distinct, as the data model requires, each module has exactly 7 reviews,
  one for each number from 0 to 6. When moreover the start date is valid and the last
  generated date stays within the range of Date, two reviews of one module are dated in
  the order of their review numbers, strictly.
\<close>

theorem generate_seven_per_module:
  "length (reviews (generateSchedule tz sd ms)) = 7 * length ms
   \<and> (\<forall>r \<in> set (reviews (generateSchedule tz sd ms)).
         0 \<le> reviewNumber r \<and> reviewNumber r \<le> 6 \<and>
         isInitialLearning r = (reviewNumber r = 0))
   \<and> (distinct (map id' ms) \<longrightarrow>
        (\<forall>m \<in> set ms.
           length (filter (\<lambda>r. moduleId r = id' m) (reviews (generateSchedule tz sd ms))) = 7
           \<and> (\<forall>k \<le> 6.
                length (filter (\<lambda>r. moduleId r = id' m \<and> reviewNumber r = int k)
                          (reviews (generateSchedule tz sd ms))) = 1)))
   \<and> (distinct (map id' ms) \<and> sd = Some t \<and> validTime t
        \<and> validTime (t + (int (length ms) + 59) * msPerDay) \<longrightarrow>
        (\<forall>r1 \<in> set (reviews (generateSchedule tz sd ms)).
         \<forall>r2 \<in> set (reviews (generateSchedule tz sd ms)).
           moduleId r1 = moduleId r2 \<and> reviewNumber r1 < reviewNumber r2 \<longrightarrow>
           (\<exists>a b. date r1 = Some a \<and> date r2 = Some b \<and> a < b)))"
proof (intro conjI impI ballI allI)
  show "length (reviews (generateSchedule tz sd ms)) = 7 * length ms"
    by (simp add: reviews_generateSchedule length_array_sort length_pushedReviews)
next
  fix r assume "r \<in> set (reviews (generateSchedule tz sd ms))"
  then obtain i k where ik: "i < length ms" "k < 7" "r = reviewOf tz sd i (ms ! i) k"
    by (auto simp: reviews_generateSchedule set_array_sort set_pushedReviews)
  then show "0 \<le> reviewNumber r" "reviewNumber r \<le> 6" "isInitialLearning r = (reviewNumber r = 0)"
    by (simp_all add: reviewOf_sel)
next
  fix m assume d: "distinct (map id' ms)" and m: "m \<in> set ms"
  have one: "length (filter (\<lambda>m'. id' m' = id' m) ms) = 1"
    using distinct_count_one [OF d m] .
  show "length (filter (\<lambda>r. moduleId r = id' m) (reviews (generateSchedule tz sd ms))) = 7"
    by (simp add: reviews_generateSchedule filter_length_array_sort pushedReviews_def
        count_pushed_id one)
  fix k :: nat assume "k \<le> 6"
  then have "k < 7" by simp
  then show "length (filter (\<lambda>r. moduleId r = id' m \<and> reviewNumber r = int k)
                          (reviews (generateSchedule tz sd ms))) = 1"
    by (simp add: reviews_generateSchedule filter_length_array_sort pushedReviews_def
        count_pushed_number one)
next
  fix r1 r2
  assume h: "distinct (map id' ms) \<and> sd = Some t \<and> validTime t
        \<and> validTime (t + (int (length ms) + 59) * msPerDay)"
    and r1: "r1 \<in> set (reviews (generateSchedule tz sd ms))"
    and r2: "r2 \<in> set (reviews (generateSchedule tz sd ms))"
    and c: "moduleId r1 = moduleId r2 \<and> reviewNumber r1 < reviewNumber r2"
  obtain i k where ik: "i < length ms" "k < 7" "r1 = reviewOf tz sd i (ms ! i) k"
    using r1 by (auto simp: reviews_generateSchedule set_array_sort set_pushedReviews)
  obtain j l where jl: "j < length ms" "l < 7" "r2 = reviewOf tz sd j (ms ! j) l"
    using r2 by (auto simp: reviews_generateSchedule set_array_sort set_pushedReviews)
  have "map id' ms ! i = map id' ms ! j" using c ik jl by (simp add: reviewOf_sel)
  then have ij: "i = j"
    using h ik(1) jl(1) by (simp add: nth_eq_iff_index_eq del: nth_map)
  have kl: "k < l" using c ik jl by (simp add: reviewOf_sel)
  have d1: "date r1 = Some (t + (int i + offsetDays k) * msPerDay)"
    using h ik date_reviewOf [of t k tz i "ms ! i"] in_range_dates [of t "length ms" i k] by simp
  have d2: "date r2 = Some (t + (int i + offsetDays l) * msPerDay)"
    using h jl ij date_reviewOf [of t l tz i "ms ! i"] in_range_dates [of t "length ms" i l] by simp
  have "offsetDays k < offsetDays l" using kl jl(2) by (rule offsetDays_mono [rotated])
  then have "t + (int i + offsetDays k) * msPerDay < t + (int i + offsetDays l) * msPerDay"
    by (simp add: msPerDay_def)
  then show "\<exists>a b. date r1 = Some a \<and> date r2 = Some b \<and> a < b"
    using d1 d2 by simp
qed

theorem generate_seven_per_module_witness:
  "distinct (map id' (take 2 getTutorialModules))
   \<and> validTime 1767225600000
   \<and> validTime (1767225600000 + (int (length (take 2 getTutorialModules)) + 59) * msPerDay)
   \<and> length (reviews (generateSchedule 0 (Some 1767225600000) (take 2 getTutorialModules))) = 14
   \<and> length (filter (\<lambda>r. moduleId r = ''ch2-database'')
         (reviews (generateSchedule 0 (Some 1767225600000) (take 2 getTutorialModules)))) = 7
   \<and> length (filter (\<lambda>r. moduleId r = ''ch2-database'' \<and> reviewNumber r = 3)
         (reviews (generateSchedule 0 (Some 1767225600000) (take 2 getTutorialModules)))) = 1
   \<and> (\<exists>a b. date (reviewOf 0 (Some 1767225600000) 1 (getTutorialModules ! 1) 2) = Some a
           \<and> date (reviewOf 0 (Some 1767225600000) 1 (getTutorialModules ! 1) 5) = Some b
           \<and> a < b)"
proof -
  let ?ms = "take 2 getTutorialModules"
  let ?t = "1767225600000 :: int"
  let ?S = "generateSchedule 0 (Some ?t) ?ms"
  let ?m = "getTutorialModules ! 1"
  have d: "distinct (map id' ?ms)" by (simp add: getTutorialModules_def)
  have v: "validTime ?t" "validTime (?t + (int (length ?ms) + 59) * msPerDay)"
    by (simp_all add: validTime_def msPerDay_def getTutorialModules_def)
  have m: "?m \<in> set ?ms" "id' ?m = ''ch2-database''" "?ms ! 1 = ?m" "length ?ms = 2"
    by (simp_all add: getTutorialModules_def)
  have r: "reviewOf 0 (Some ?t) 1 ?m 2 \<in> set (reviews ?S)"
    "reviewOf 0 (Some ?t) 1 ?m 5 \<in> set (reviews ?S)"
    using mem_reviews [of 1 ?ms 2 0 "Some ?t"] mem_reviews [of 1 ?ms 5 0 "Some ?t"] m(3,4)
    by simp_all
  have n: "moduleId (reviewOf 0 (Some ?t) 1 ?m 2) = moduleId (reviewOf 0 (Some ?t) 1 ?m 5)
           \<and> reviewNumber (reviewOf 0 (Some ?t) 1 ?m 2) < reviewNumber (reviewOf 0 (Some ?t) 1 ?m 5)"
    by (simp add: reviewOf_sel)
  note T = generate_seven_per_module [of 0 "Some ?t" ?ms ?t]
  have T1: "length (reviews ?S) = 7 * length ?ms"
    by (rule conjunct1 [OF T])
  have T3: "\<forall>m \<in> set ?ms.
           length (filter (\<lambda>r. moduleId r = id' m) (reviews ?S)) = 7
           \<and> (\<forall>k \<le> 6.
                length (filter (\<lambda>r. moduleId r = id' m \<and> reviewNumber r = int k)
                          (reviews ?S)) = 1)"
    by (rule mp [OF conjunct1 [OF conjunct2 [OF conjunct2 [OF T]]] d])
  have T4: "\<forall>r1 \<in> set (reviews ?S). \<forall>r2 \<in> set (reviews ?S).
           moduleId r1 = moduleId r2 \<and> reviewNumber r1 < reviewNumber r2 \<longrightarrow>
           (\<exists>a b. date r1 = Some a \<and> date r2 = Some b \<and> a < b)"
    by (rule mp [OF conjunct2 [OF conjunct2 [OF conjunct2 [OF T]]]]) (intro conjI d refl v)
  have c1: "length (reviews ?S) = 14" using T1 m(4) by simp
  have T3m: "length (filter (\<lambda>r. moduleId r = id' ?m) (reviews ?S)) = 7
           \<and> (\<forall>k \<le> 6.
                length (filter (\<lambda>r. moduleId r = id' ?m \<and> reviewNumber r = int k)
                          (reviews ?S)) = 1)"
    by (rule bspec [OF T3 m(1)])
  have c2: "length (filter (\<lambda>r. moduleId r = ''ch2-database'') (reviews ?S)) = 7"
    using conjunct1 [OF T3m] by (simp only: m(2))
  have "(3::nat) \<le> 6" by simp
  then have "length (filter (\<lambda>r. moduleId r = id' ?m \<and> reviewNumber r = int 3) (reviews ?S)) = 1"
    by (rule mp [OF spec [OF conjunct2 [OF T3m]]])
  then have c3: "length (filter (\<lambda>r. moduleId r = ''ch2-database'' \<and> reviewNumber r = 3) (reviews ?S)) = 1"
    by (simp only: m(2) of_nat_numeral)
  have c4: "\<exists>a b. date (reviewOf 0 (Some ?t) 1 ?m 2) = Some a
           \<and> date (reviewOf 0 (Some ?t) 1 ?m 5) = Some b \<and> a < b"
    by (rule mp [OF bspec [OF bspec [OF T4 r(1)] r(2)] n])
  show ?thesis
    by (intro conjI d v c1 c2 c3 c4)
qed

subsection \<open>C3: the reviews are sorted by date, stably\<close>



subsection \<open>C4: free text is escaped in the event block\<close>

text \<open>
  Claim C4. An event block that \<open>generateICSEvent\<close> returns ends with the SUMMARY line,
  the DESCRIPTION line, the UID line and \<open>END:VEVENT\<close>, and the values of SUMMARY and
  DESCRIPTION are the escaped title and the escaped description. Escaping replaces each
  character by \<open>escapeChar\<close> of it (backslash doubled, semicolon and comma with a
  backslash before them, line feed as backslash and n) and so acts on every part of a
  text separately; the escaped text holds no line feed, hence no line terminator of the
  calendar format, and reading it back by the quoting rules gives the text again. The
  module's title is part of the event title, and each concept and each review question
  is part of the description.
\<close>

theorem event_text_escaped:
  "(generateICSEvent tz review module = Inr block \<longrightarrow>
      (\<exists>pre. block = pre @ ''SUMMARY:'' @ escapeICSText (generateEventTitle review module) @ CRLF
                 @ ''DESCRIPTION:'' @ escapeICSText (generateEventDescription review module) @ CRLF
                 @ ''UID:'' @ eventUid review @ CRLF @ ''END:VEVENT''))
   \<and> escapeICSText s = concat (map escapeChar s)
   \<and> escapeICSText (a @ s @ b) = escapeICSText a @ escapeICSText s @ escapeICSText b
   \<and> LF \<notin> set (escapeICSText s)
   \<and> unescapeICSText (escapeICSText s) = s
   \<and> (\<exists>a. generateEventTitle review module = a @ title module)
   \<and> (\<forall>c \<in> set (concepts module). \<exists>a b. generateEventDescription review module = a @ c @ b)
   \<and> (\<forall>q \<in> set (reviewQuestions module).
         \<exists>a b. generateEventDescription review module = a @ q @ b)"
proof (intro conjI impI ballI)
  assume g: "generateICSEvent tz review module = Inr block"
  then obtain s1 s2 where s: "formatICSDate tz (date review) = Inr s1"
    "formatICSDateEnd tz (date review) = Inr s2"
    using generateICSEvent_Inr by blast
  have "block = (''BEGIN:VEVENT'' @ CRLF @ (''DTSTART:'' @ s1) @ CRLF @ (''DTEND:'' @ s2) @ CRLF)
          @ ''SUMMARY:'' @ escapeICSText (generateEventTitle review module) @ CRLF
          @ ''DESCRIPTION:'' @ escapeICSText (generateEventDescription review module) @ CRLF
          @ ''UID:'' @ eventUid review @ CRLF @ ''END:VEVENT''"
    using g generateICSEvent_block [OF s, of module] by (simp only: sum.inject append_assoc)
  then show "\<exists>pre. block = pre @ ''SUMMARY:'' @ escapeICSText (generateEventTitle review module) @ CRLF
                 @ ''DESCRIPTION:'' @ escapeICSText (generateEventDescription review module) @ CRLF
                 @ ''UID:'' @ eventUid review @ CRLF @ ''END:VEVENT''"
    by blast
next
  show "escapeICSText s = concat (map escapeChar s)" by (rule escapeICSText_chars)
  show "escapeICSText (a @ s @ b) = escapeICSText a @ escapeICSText s @ escapeICSText b"
    by (simp add: escapeICSText_append)
  show "LF \<notin> set (escapeICSText s)" by (rule LF_notin_escapeICSText)
  show "unescapeICSText (escapeICSText s) = s" by (rule unescape_escape)
  have "generateEventTitle review module = (getReviewLabel review @ '': '') @ title module"
    by (simp add: generateEventTitle_def Let_def)
  then show "\<exists>a. generateEventTitle review module = a @ title module" by blast
next
  fix c assume "c \<in> set (concepts module)"
  then show "\<exists>a b. generateEventDescription review module = a @ c @ b"
    by (rule description_concept)
next
  fix q assume "q \<in> set (reviewQuestions module)"
  then show "\<exists>a b. generateEventDescription review module = a @ q @ b"
    by (rule description_question)
qed

theorem event_text_escaped_witness:
  "(\<exists>block pre.
      generateICSEvent 0
        \<lparr>moduleId = ''ch1-scraper'', date = Some 1767225600000, reviewNumber = 0,
         isInitialLearning = True\<rparr>
        ((getTutorialModules ! 0)\<lparr>title := [CHR ''W'', CHR '';'', CHR '','', backslash, LF, CHR ''S'']\<rparr>)
        = Inr block
      \<and> block = pre @ ''SUMMARY:''
          @ escapeICSText (generateEventTitle
               \<lparr>moduleId = ''ch1-scraper'', date = Some 1767225600000, reviewNumber = 0,
                isInitialLearning = True\<rparr>
               ((getTutorialModules ! 0)\<lparr>title := [CHR ''W'', CHR '';'', CHR '','', backslash, LF, CHR ''S'']\<rparr>))
          @ CRLF @ ''DESCRIPTION:''
          @ escapeICSText (generateEventDescription
               \<lparr>moduleId = ''ch1-scraper'', date = Some 1767225600000, reviewNumber = 0,
                isInitialLearning = True\<rparr>
               ((getTutorialModules ! 0)\<lparr>title := [CHR ''W'', CHR '';'', CHR '','', backslash, LF, CHR ''S'']\<rparr>))
          @ CRLF @ ''UID:''
          @ eventUid \<lparr>moduleId = ''ch1-scraper'', date = Some 1767225600000, reviewNumber = 0,
                isInitialLearning = True\<rparr>
          @ CRLF @ ''END:VEVENT'')
   \<and> escapeICSText (generateEventTitle
               \<lparr>moduleId = ''ch1-scraper'', date = Some 1767225600000, reviewNumber = 0,
                isInitialLearning = True\<rparr>
               ((getTutorialModules ! 0)\<lparr>title := [CHR ''W'', CHR '';'', CHR '','', backslash, LF, CHR ''S'']\<rparr>))
       = ''Learn: W'' @ [backslash, CHR '';'', backslash, CHR '','', backslash, backslash,
                         backslash, CHR ''n'', CHR ''S'']
   \<and> unescapeICSText (''Learn: W'' @ [backslash, CHR '';'', backslash, CHR '','', backslash,
                         backslash, backslash, CHR ''n'', CHR ''S''])
       = ''Learn: W'' @ [CHR '';'', CHR '','', backslash, LF, CHR ''S'']"
proof -
  let ?R = "\<lparr>moduleId = ''ch1-scraper'', date = Some 1767225600000, reviewNumber = 0,
         isInitialLearning = True\<rparr>"
  let ?M = "(getTutorialModules ! 0)\<lparr>title := [CHR ''W'', CHR '';'', CHR '','', backslash, LF, CHR ''S'']\<rparr>"
  have "encodable 0 (date ?R)"
    by (simp add: encodable_def validTime_def localHourOfDay_def LocalTime_def Day_def
        msPerDay_def msPerHour_def)
  then obtain block where b: "generateICSEvent 0 ?R ?M = Inr block"
    using generateICSEvent_encodable by blast
  note T = event_text_escaped [of 0 ?R ?M block "generateEventTitle ?R ?M" "[]" "[]"]
  obtain pre where "block = pre @ ''SUMMARY:'' @ escapeICSText (generateEventTitle ?R ?M) @ CRLF
                 @ ''DESCRIPTION:'' @ escapeICSText (generateEventDescription ?R ?M) @ CRLF
                 @ ''UID:'' @ eventUid ?R @ CRLF @ ''END:VEVENT''"
    using mp [OF conjunct1 [OF T] b] by blast
  then have 1: "\<exists>block pre. generateICSEvent 0 ?R ?M = Inr block
      \<and> block = pre @ ''SUMMARY:'' @ escapeICSText (generateEventTitle ?R ?M) @ CRLF
                 @ ''DESCRIPTION:'' @ escapeICSText (generateEventDescription ?R ?M) @ CRLF
                 @ ''UID:'' @ eventUid ?R @ CRLF @ ''END:VEVENT''"
    using b by blast
  have t: "generateEventTitle ?R ?M = ''Learn: W'' @ [CHR '';'', CHR '','', backslash, LF, CHR ''S'']"
    by (simp add: generateEventTitle_def getReviewLabel_def Let_def)
  have "escapeICSText (generateEventTitle ?R ?M) = concat (map escapeChar (generateEventTitle ?R ?M))"
    by (rule conjunct1 [OF conjunct2 [OF T]])
  then have 2: "escapeICSText (generateEventTitle ?R ?M)
       = ''Learn: W'' @ [backslash, CHR '';'', backslash, CHR '','', backslash, backslash,
                         backslash, CHR ''n'', CHR ''S'']"
    unfolding t using special_chars_distinct by (simp add: escapeChar_def backslash_def LF_def)
  have "unescapeICSText (escapeICSText (generateEventTitle ?R ?M)) = generateEventTitle ?R ?M"
    by (rule conjunct1 [OF conjunct2 [OF conjunct2 [OF conjunct2 [OF conjunct2 [OF T]]]]])
  then have "unescapeICSText (''Learn: W'' @ [backslash, CHR '';'', backslash, CHR '','', backslash,
                         backslash, backslash, CHR ''n'', CHR ''S''])
       = generateEventTitle ?R ?M"
    by (simp only: 2)
  then have 3: "unescapeICSText (''Learn: W'' @ [backslash, CHR '';'', backslash, CHR '','', backslash,
                         backslash, backslash, CHR ''n'', CHR ''S''])
       = ''Learn: W'' @ [CHR '';'', CHR '','', backslash, LF, CHR ''S'']"
    by (simp only: t)
  show ?thesis by (intro conjI 1 2 3)
qed

subsection \<open>C5: the timestamps of an event\<close>




subsection \<open>C6: the unique identifier is a function of the triple\<close>

text \<open>
  Claim C6. Two reviews with the same module id, the same review number and the same
  time value of their dates have the same identifier, whatever their other fields, the
  module and the local offset are; the UID line of an event block carries exactly this
  identifier; and \<open>generateICSFile\<close> returns equal outputs on equal reviews and modules
  (under one local offset, which is the only thing the function reads besides its
  arguments).
\<close>

theorem uid_stable:
  "(moduleId r1 = moduleId r2 \<and> reviewNumber r1 = reviewNumber r2
      \<and> getTime (date r1) = getTime (date r2) \<longrightarrow> eventUid r1 = eventUid r2)
   \<and> (generateICSEvent tz r m = Inr block \<longrightarrow>
        (\<exists>pre. block = pre @ ''UID:'' @ eventUid r @ CRLF @ ''END:VEVENT''))
   \<and> (rs1 = rs2 \<and> ms1 = ms2 \<longrightarrow> generateICSFile tz rs1 ms1 = generateICSFile tz rs2 ms2)"
proof (intro conjI impI)
  assume "moduleId r1 = moduleId r2 \<and> reviewNumber r1 = reviewNumber r2
      \<and> getTime (date r1) = getTime (date r2)"
  then show "eventUid r1 = eventUid r2" by (simp add: eventUid_def)
next
  assume g: "generateICSEvent tz r m = Inr block"
  then obtain s1 s2 where s: "formatICSDate tz (date r) = Inr s1"
    "formatICSDateEnd tz (date r) = Inr s2"
    using generateICSEvent_Inr by blast
  have "block = (''BEGIN:VEVENT'' @ CRLF @ (''DTSTART:'' @ s1) @ CRLF @ (''DTEND:'' @ s2) @ CRLF
          @ ''SUMMARY:'' @ escapeICSText (generateEventTitle r m) @ CRLF
          @ ''DESCRIPTION:'' @ escapeICSText (generateEventDescription r m) @ CRLF)
          @ ''UID:'' @ eventUid r @ CRLF @ ''END:VEVENT''"
    using g generateICSEvent_block [OF s, of m] by (simp only: sum.inject append_assoc)
  then show "\<exists>pre. block = pre @ ''UID:'' @ eventUid r @ CRLF @ ''END:VEVENT''"
    by blast
next
  assume "rs1 = rs2 \<and> ms1 = ms2"
  then show "generateICSFile tz rs1 ms1 = generateICSFile tz rs2 ms2" by simp
qed

theorem uid_stable_witness:
  "eventUid \<lparr>moduleId = ''ch1-scraper'', date = Some 1767225600000, reviewNumber = 2,
            isInitialLearning = False\<rparr>
     = eventUid \<lparr>moduleId = ''ch1-scraper'', date = Some 1767225600000, reviewNumber = 2,
                isInitialLearning = True\<rparr>
   \<and> eventUid \<lparr>moduleId = ''ch1-scraper'', date = Some 1767225600000, reviewNumber = 2,
            isInitialLearning = False\<rparr>
     = ''ch1-scraper-r2-1767225600000@tvwriter-explorer''
   \<and> (\<exists>block pre.
        generateICSEvent 0
          \<lparr>moduleId = ''ch1-scraper'', date = Some 1767225600000, reviewNumber = 2,
           isInitialLearning = False\<rparr> (getTutorialModules ! 0) = Inr block
        \<and> block = pre @ ''UID:''
            @ eventUid \<lparr>moduleId = ''ch1-scraper'', date = Some 1767225600000, reviewNumber = 2,
                        isInitialLearning = False\<rparr>
            @ CRLF @ ''END:VEVENT'')"
proof -
  let ?R = "\<lparr>moduleId = ''ch1-scraper'', date = Some 1767225600000, reviewNumber = 2,
            isInitialLearning = False\<rparr>"
  let ?R' = "\<lparr>moduleId = ''ch1-scraper'', date = Some 1767225600000, reviewNumber = 2,
            isInitialLearning = True\<rparr>"
  let ?M = "getTutorialModules ! 0"
  have "encodable 0 (date ?R)"
    by (simp add: encodable_def validTime_def localHourOfDay_def LocalTime_def Day_def
        msPerDay_def msPerHour_def)
  then obtain block where b: "generateICSEvent 0 ?R ?M = Inr block"
    using generateICSEvent_encodable by blast
  note T = uid_stable [of ?R ?R' 0 ?R ?M block "[?R]" "[?R]" "[?M]" "[?M]"]
  have 1: "eventUid ?R = eventUid ?R'"
    by (rule mp [OF conjunct1 [OF T]]) simp
  have 2: "eventUid ?R = ''ch1-scraper-r2-1767225600000@tvwriter-explorer''"
    by (simp add: eventUid_def intToString_def numberToString_def getTime_def digits.simps
        digit_simps)
  obtain pre where "block = pre @ ''UID:'' @ eventUid ?R @ CRLF @ ''END:VEVENT''"
    using mp [OF conjunct1 [OF conjunct2 [OF T]] b] by blast
  then have 3: "\<exists>block pre. generateICSEvent 0 ?R ?M = Inr block
        \<and> block = pre @ ''UID:'' @ eventUid ?R @ CRLF @ ''END:VEVENT''"
    using b by blast
  show ?thesis by (intro conjI 1 2 3)
qed

subsection \<open>C7: a review without a module is skipped\<close>

text \<open>
  Claim C7. \<open>getModuleById\<close> returns \<open>None\<close> exactly for an id that no module of the
  schedule has, and a module it returns is a module of the schedule with that id. When
  the date of every review that has a module can be written, \<open>generateICSFile\<close> does not
  throw, and its output is the header lines, the event blocks and the closing line
  joined by CR LF, where the event blocks are the encodings of exactly the reviews
  whose module id belongs to some module, in their order: one block for each such
  review, and none for the others.
\<close>

theorem lookup_miss_skipped:
  "(getModuleById s mid = None \<longleftrightarrow> mid \<notin> id' ` set (modules s))
   \<and> (getModuleById s mid = Some m \<longrightarrow> m \<in> set (modules s) \<and> id' m = mid)
   \<and> ((\<forall>r \<in> set rs. moduleId r \<in> id' ` set ms \<longrightarrow> encodable tz (date r)) \<longrightarrow>
        (\<exists>events.
           generateICSFile tz rs ms = Inr (join CRLF (calendarHeader @ events @ [''END:VCALENDAR'']))
           \<and> length events = length (filter (\<lambda>r. moduleId r \<in> id' ` set ms) rs)
           \<and> map Inr events =
               map (\<lambda>r. generateICSEvent tz r (the (moduleMap ms (moduleId r))))
                 (filter (\<lambda>r. moduleId r \<in> id' ` set ms) rs)))"
proof (intro conjI impI)
  show "getModuleById s mid = None \<longleftrightarrow> mid \<notin> id' ` set (modules s)"
    by (rule getModuleById_None)
next
  assume "getModuleById s mid = Some m"
  then show "m \<in> set (modules s)" "id' m = mid"
    using getModuleById_Some by blast+
next
  assume "\<forall>r \<in> set rs. moduleId r \<in> id' ` set ms \<longrightarrow> encodable tz (date r)"
  then have "\<forall>r \<in> set rs. moduleMap ms (moduleId r) \<noteq> None \<longrightarrow> encodable tz (date r)"
    by (simp add: moduleMap_None)
  then obtain evs where evs: "mapEvents tz (moduleMap ms) rs = Inr evs"
    "map Inr (notNull evs) =
       map (\<lambda>r. generateICSEvent tz r (the (moduleMap ms (moduleId r))))
         (filter (\<lambda>r. moduleMap ms (moduleId r) \<noteq> None) rs)"
    using mapEvents_skip [of rs "moduleMap ms" tz] by blast
  have flt: "filter (\<lambda>r. moduleMap ms (moduleId r) \<noteq> None) rs
           = filter (\<lambda>r. moduleId r \<in> id' ` set ms) rs"
    by (simp add: moduleMap_None)
  have 1: "generateICSFile tz rs ms =
             Inr (join CRLF (calendarHeader @ notNull evs @ [''END:VCALENDAR'']))"
    using evs(1) by (simp add: generateICSFile_def Let_def calendarHeader_def del: join.simps)
  have 2: "map Inr (notNull evs) =
               map (\<lambda>r. generateICSEvent tz r (the (moduleMap ms (moduleId r))))
                 (filter (\<lambda>r. moduleId r \<in> id' ` set ms) rs)"
    using evs(2) by (simp only: flt)
  have "length (map (Inr :: string \<Rightarrow> js_error + string) (notNull evs)) = length (filter (\<lambda>r. moduleId r \<in> id' ` set ms) rs)"
    by (simp only: 2 length_map)
  then have 3: "length (notNull evs) = length (filter (\<lambda>r. moduleId r \<in> id' ` set ms) rs)"
    by simp
  show "\<exists>events.
           generateICSFile tz rs ms = Inr (join CRLF (calendarHeader @ events @ [''END:VCALENDAR'']))
           \<and> length events = length (filter (\<lambda>r. moduleId r \<in> id' ` set ms) rs)
           \<and> map Inr events =
               map (\<lambda>r. generateICSEvent tz r (the (moduleMap ms (moduleId r))))
                 (filter (\<lambda>r. moduleId r \<in> id' ` set ms) rs)"
    using 1 2 3 by blast
qed

theorem lookup_miss_skipped_witness:
  "getModuleById (generateSchedule 0 (Some 1767225600000) (take 2 getTutorialModules)) ''ch9-missing''
     = None
   \<and> (\<exists>events.
        generateICSFile 0
          [\<lparr>moduleId = ''ch1-scraper'', date = Some 1767225600000, reviewNumber = 0,
            isInitialLearning = True\<rparr>,
           \<lparr>moduleId = ''ch9-missing'', date = Some 1767225600000, reviewNumber = 0,
            isInitialLearning = True\<rparr>]
          (take 2 getTutorialModules)
          = Inr (join CRLF (calendarHeader @ events @ [''END:VCALENDAR'']))
        \<and> length events = 1)"
proof -
  let ?R1 = "\<lparr>moduleId = ''ch1-scraper'', date = Some 1767225600000, reviewNumber = 0,
            isInitialLearning = True\<rparr>"
  let ?R2 = "\<lparr>moduleId = ''ch9-missing'', date = Some 1767225600000, reviewNumber = 0,
            isInitialLearning = True\<rparr>"
  let ?ms = "take 2 getTutorialModules"
  let ?S = "generateSchedule 0 (Some 1767225600000) ?ms"
  note T = lookup_miss_skipped [of ?S "''ch9-missing''" "getTutorialModules ! 0" "[?R1, ?R2]" ?ms 0]
  have ids: "id' ` set ?ms = {''ch1-scraper'', ''ch2-database''}"
    by (simp add: getTutorialModules_def)
  have m: "modules ?S = ?ms" by (simp add: generateSchedule_def Let_def)
  have "''ch9-missing'' \<notin> id' ` set (modules ?S)"
    unfolding m ids by simp
  then have 1: "getModuleById ?S ''ch9-missing'' = None"
    using conjunct1 [OF T] by simp
  have e: "encodable 0 (Some 1767225600000)"
    by (simp add: encodable_def validTime_def localHourOfDay_def LocalTime_def Day_def
        msPerDay_def msPerHour_def)
  have h: "\<forall>r \<in> set [?R1, ?R2]. moduleId r \<in> id' ` set ?ms \<longrightarrow> encodable 0 (date r)"
    using e by simp
  have n: "length (filter (\<lambda>r. moduleId r \<in> id' ` set ?ms) [?R1, ?R2]) = 1"
    unfolding ids by simp
  obtain events where "generateICSFile 0 [?R1, ?R2] ?ms
          = Inr (join CRLF (calendarHeader @ events @ [''END:VCALENDAR'']))"
    "length events = length (filter (\<lambda>r. moduleId r \<in> id' ` set ?ms) [?R1, ?R2])"
    using mp [OF conjunct2 [OF conjunct2 [OF T]] h] by blast
  then have 2: "\<exists>events. generateICSFile 0 [?R1, ?R2] ?ms
          = Inr (join CRLF (calendarHeader @ events @ [''END:VCALENDAR'']))
        \<and> length events = 1"
    unfolding n by blast
  show ?thesis by (intro conjI 1 2)
qed

subsection \<open>C8: the calendar grid\<close>



subsection \<open>C9: empty inputs\<close>

text \<open>
  Claim C9. The schedule generated from the empty module list has no reviews, and its
  date range has both bounds equal to the start date; the date range of any schedule
  without reviews has both bounds equal to its start date; and the reviews on a date
  that is the day of no review are the empty list.
\<close>

theorem empty_inputs:
  "reviews (generateSchedule tz sd []) = []
   \<and> getScheduleDateRange (generateSchedule tz sd []) = \<lparr>start = sd, end = sd\<rparr>
   \<and> (reviews s = [] \<longrightarrow>
        getScheduleDateRange s = \<lparr>start = startDate s, end = startDate s\<rparr>)
   \<and> ((\<forall>r \<in> set (reviews s). \<not> isSameDay tz (date r) d) \<longrightarrow> getReviewsForDate tz s d = [])"
proof -
  have "reviews (generateSchedule tz sd []) = []"
    by (simp add: generateSchedule_def pushedReviews_def array_sort_def Let_def)
  moreover have "startDate (generateSchedule tz sd []) = sd"
    by (simp add: generateSchedule_def Let_def)
  ultimately show ?thesis
    by (simp add: getScheduleDateRange_def getReviewsForDate_def filter_empty_conv)
qed

theorem empty_inputs_witness:
  "reviews \<lparr>startDate = Some 1767225600000, modules = take 2 getTutorialModules, reviews = []\<rparr> = []
   \<and> getScheduleDateRange
        \<lparr>startDate = Some 1767225600000, modules = take 2 getTutorialModules, reviews = []\<rparr>
      = \<lparr>start = Some 1767225600000, end = Some 1767225600000\<rparr>
   \<and> \<not> isSameDay 0 (Some 1767225600000) (Some 1767312000000)
   \<and> getReviewsForDate 0
        \<lparr>startDate = Some 1767225600000, modules = take 1 getTutorialModules,
         reviews = [\<lparr>moduleId = ''ch1-scraper'', date = Some 1767225600000, reviewNumber = 0,
                     isInitialLearning = True\<rparr>]\<rparr>
        (Some 1767312000000) = []"
proof -
  let ?s0 = "\<lparr>startDate = Some 1767225600000, modules = take 2 getTutorialModules, reviews = []\<rparr>"
  let ?s1 = "\<lparr>startDate = Some 1767225600000, modules = take 1 getTutorialModules,
         reviews = [\<lparr>moduleId = ''ch1-scraper'', date = Some 1767225600000, reviewNumber = 0,
                     isInitialLearning = True\<rparr>]\<rparr>"
  have ns: "\<not> isSameDay 0 (Some 1767225600000) (Some 1767312000000)"
    by code_simp
  have "getScheduleDateRange ?s0 = \<lparr>start = Some 1767225600000, end = Some 1767225600000\<rparr>"
    using empty_inputs [of 0 None ?s0] by simp
  moreover have "getReviewsForDate 0 ?s1 (Some 1767312000000) = []"
    using empty_inputs [of 0 None ?s1 "Some 1767312000000"] ns by simp
  ultimately show ?thesis using ns by simp
qed

subsection \<open>C10: what an operation changes and what its result shares\<close>




end
